theory Spec2Isabelle
  imports Complex_Main "HOL-Library.Word" "HOL-Library.Multiset"
begin

section \<open>AI Sorter: the batch classification run of \<^verbatim>\<open>main.js\<close>\<close>

text \<open>
  The plugin reads each selected note, asks a remote model for a folder name, and moves
  the note when the answer is one of the target folders. The model below follows
  \<^verbatim>\<open>sortNotes\<close>, \<^verbatim>\<open>getCurrentApiKey\<close>, \<^verbatim>\<open>autoDetectTargetFolders\<close>,
  \<^verbatim>\<open>performSort\<close>, \<^verbatim>\<open>classifyAndMoveNote\<close>, \<^verbatim>\<open>classifyNote\<close> and the three
  \<^verbatim>\<open>call...API\<close> methods. Every effect on the outside (vault reads, folder creation,
  renames, HTTP requests, notices, the pacing timer) is recorded as an event of a trace;
  what the outside answers is an input of the model. \<^verbatim>\<open>console.error\<close> diagnostics are
  not recorded.
\<close>

subsection \<open>Strings\<close>

text \<open>
  A JavaScript string is a sequence of 16-bit code units. \<open>str\<close> writes an ASCII literal.
\<close>

type_synonym jsstring = "16 word list"

definition str :: "string \<Rightarrow> jsstring" where
  "str cs = map of_char cs"

text \<open>
  \<^verbatim>\<open>String.prototype.trim\<close> strips the ECMAScript WhiteSpace and LineTerminator code
  points from both ends: TAB, LF, VT, FF, CR, SP, NBSP, U+1680, U+2000..U+200A, U+2028,
  U+2029, U+202F, U+205F, U+3000 and U+FEFF.
\<close>

definition is_ws :: "16 word \<Rightarrow> bool" where
  "is_ws c \<longleftrightarrow>
     c = 0x09 \<or> c = 0x0A \<or> c = 0x0B \<or> c = 0x0C \<or> c = 0x0D \<or> c = 0x20 \<or> c = 0xA0 \<or>
     c = 0x1680 \<or> (0x2000 \<le> c \<and> c \<le> 0x200A) \<or> c = 0x2028 \<or> c = 0x2029 \<or>
     c = 0x202F \<or> c = 0x205F \<or> c = 0x3000 \<or> c = 0xFEFF"

definition trim :: "jsstring \<Rightarrow> jsstring" where
  "trim s = rev (dropWhile is_ws (rev (dropWhile is_ws s)))"

text \<open>\<^verbatim>\<open>s.substring(0, n)\<close>, \<^verbatim>\<open>s.startsWith(p)\<close>, \<^verbatim>\<open>xs.join(sep)\<close>.\<close>

definition substring0 :: "jsstring \<Rightarrow> nat \<Rightarrow> jsstring" where
  "substring0 s n = take n s"

definition startsWith :: "jsstring \<Rightarrow> jsstring \<Rightarrow> bool" where
  "startsWith s p \<longleftrightarrow> take (length p) s = p"

fun join :: "jsstring \<Rightarrow> jsstring list \<Rightarrow> jsstring" where
  "join sep [] = []"
| "join sep [x] = x"
| "join sep (x # y # ys) = x @ sep @ join sep (y # ys)"

text \<open>\<^verbatim>\<open>path.includes('/')\<close>: the one-unit string \<^verbatim>\<open>'/'\<close> occurs in the path.\<close>

definition includes_slash :: "jsstring \<Rightarrow> bool" where
  "includes_slash p \<longleftrightarrow> (0x2F :: 16 word) \<in> set p"

subsection \<open>Settings, vault objects, the outside world\<close>

text \<open>
  The settings object. \<^verbatim>\<open>maxWorkers\<close> is a natural number: the slider of the settings
  tab gives the integers from 1 to 20, and the default is 10.
\<close>

record settings =
  aiModel :: jsstring
  geminiApiKey :: jsstring
  claudeApiKey :: jsstring
  gptApiKey :: jsstring
  sourceFolder :: jsstring
  useAutoDetection :: bool
  targetFolders :: "jsstring list"
  maxWorkers :: nat

record tfile =
  path :: jsstring
  name :: jsstring

text \<open>An entry of \<^verbatim>\<open>vault.getAllLoadedFiles()\<close>: a folder or a file, with path and name.\<close>

datatype abstract_file = TFolder jsstring jsstring | TFile jsstring jsstring

fun is_TFolder :: "abstract_file \<Rightarrow> bool" where
  "is_TFolder (TFolder p n) = True"
| "is_TFolder (TFile p n) = False"

fun afile_path :: "abstract_file \<Rightarrow> jsstring" where
  "afile_path (TFolder p n) = p"
| "afile_path (TFile p n) = p"

fun afile_name :: "abstract_file \<Rightarrow> jsstring" where
  "afile_name (TFolder p n) = n"
| "afile_name (TFile p n) = n"

text \<open>Whatever can be thrown by a collaborator of a task.\<close>

datatype error = ReadError | FetchError | HttpError nat | JsonError | CreateFolderError | RenameError

datatype provider = Gemini | Claude | GPT

record request =
  endpoint :: provider
  credential :: jsstring
  body :: jsstring

text \<open>
  The text field that a \<^verbatim>\<open>call...API\<close> method digs out of the parsed JSON with its chain
  of \<^verbatim>\<open>?.\<close>: absent (\<^verbatim>\<open>undefined\<close> or \<^verbatim>\<open>null\<close>) or a string.
\<close>

datatype field = Absent | Text jsstring

record response =
  ok :: bool
  status :: nat
  json :: "error + field"

text \<open>
  What the outside answers to one task: the result of \<^verbatim>\<open>vault.read\<close>, of \<^verbatim>\<open>fetch\<close>
  for a request, whether \<^verbatim>\<open>getAbstractFileByPath\<close> finds something, and whether
  \<^verbatim>\<open>createFolder\<close> and \<^verbatim>\<open>rename\<close> throw. The tasks of a window run concurrently
  and the answers depend on the interleaving and on the vault; every theorem holds for
  all answers, hence for every interleaving.
\<close>

record env =
  vault_read :: "error + jsstring"
  fetch :: "request \<Rightarrow> error + response"
  getAbstractFileByPath :: "jsstring \<Rightarrow> bool"
  createFolder :: "jsstring \<Rightarrow> error option"
  rename :: "jsstring \<Rightarrow> error option"

record world =
  getMarkdownFiles :: "tfile list"
  getAllLoadedFiles :: "abstract_file list"
  task_env :: "tfile \<Rightarrow> env"

text \<open>
  The notices carry their parameters; the rendering of the text (with
  \<^verbatim>\<open>aiModel.toUpperCase()\<close>) is not modelled.
\<close>

datatype notice =
    PleaseSetApiKey jsstring
  | NoNotesFound
  | StartingSort nat jsstring
  | SortingComplete nat nat

datatype event =
    Read tfile
  | Fetch request
  | GetAbstractFileByPath jsstring
  | CreateFolder jsstring
  | Rename tfile jsstring
  | Delay nat
  | Notice notice
  | OpenModal

subsection \<open>The classification client\<close>

text \<open>\<^verbatim>\<open>x || null\<close> on the extracted field: an absent field and the empty string are falsy.\<close>

fun or_null :: "field \<Rightarrow> jsstring option" where
  "or_null Absent = None"
| "or_null (Text t) = (if t = [] then None else Some t)"

text \<open>
  The common shape of the three \<^verbatim>\<open>call...API\<close> methods: one \<^verbatim>\<open>fetch\<close>, a throw on
  a status that is not ok, \<^verbatim>\<open>response.json()\<close>, the field or null. The \<^verbatim>\<open>catch\<close> of
  each method logs and rethrows.
\<close>

definition call_api :: "env \<Rightarrow> request \<Rightarrow> (error + jsstring option) \<times> event list" where
  "call_api e req =
     (case fetch e req of
        Inl err \<Rightarrow> (Inl err, [Fetch req])
      | Inr resp \<Rightarrow>
          if \<not> ok resp then (Inl (HttpError (status resp)), [Fetch req])
          else (case json resp of
                  Inl err \<Rightarrow> (Inl err, [Fetch req])
                | Inr data \<Rightarrow> (Inr (or_null data), [Fetch req])))"

definition callGeminiAPI :: "env \<Rightarrow> settings \<Rightarrow> jsstring \<Rightarrow> (error + jsstring option) \<times> event list" where
  "callGeminiAPI e s p = call_api e \<lparr>endpoint = Gemini, credential = geminiApiKey s, body = p\<rparr>"

definition callClaudeAPI :: "env \<Rightarrow> settings \<Rightarrow> jsstring \<Rightarrow> (error + jsstring option) \<times> event list" where
  "callClaudeAPI e s p = call_api e \<lparr>endpoint = Claude, credential = claudeApiKey s, body = p\<rparr>"

definition callGPTAPI :: "env \<Rightarrow> settings \<Rightarrow> jsstring \<Rightarrow> (error + jsstring option) \<times> event list" where
  "callGPTAPI e s p = call_api e \<lparr>endpoint = GPT, credential = gptApiKey s, body = p\<rparr>"

definition build_prompt :: "settings \<Rightarrow> jsstring \<Rightarrow> jsstring" where
  "build_prompt s content =
     str ''Analyze the following note content and determine the best folder for it from this list: ''
     @ join (str '', '') (targetFolders s)
     @ str ''. Respond with only the single, most appropriate folder name from the list and nothing else.''
     @ [0x0A, 0x0A] @ str ''Note Content:'' @ [0x0A] @ str ''---'' @ [0x0A]
     @ substring0 content 4000"

text \<open>\<^verbatim>\<open>response?.trim() || null\<close>.\<close>

fun trim_or_null :: "jsstring option \<Rightarrow> jsstring option" where
  "trim_or_null None = None"
| "trim_or_null (Some r) = (if trim r = [] then None else Some (trim r))"

text \<open>
  \<^verbatim>\<open>classifyNote\<close>: the \<^verbatim>\<open>switch\<close> on \<^verbatim>\<open>aiModel\<close> has no default case, so an
  unknown model leaves \<^verbatim>\<open>response\<close> null without a call. The \<^verbatim>\<open>catch\<close> returns null.
\<close>

definition classifyNote :: "env \<Rightarrow> settings \<Rightarrow> jsstring \<Rightarrow> jsstring option \<times> event list" where
  "classifyNote e s content =
     (let p = build_prompt s content;
          (response, evs) =
            (if aiModel s = str ''gemini'' then callGeminiAPI e s p
             else if aiModel s = str ''claude'' then callClaudeAPI e s p
             else if aiModel s = str ''gpt'' then callGPTAPI e s p
             else (Inr None, []))
      in case response of
           Inl err \<Rightarrow> (None, evs)
         | Inr r \<Rightarrow> (trim_or_null r, evs))"

subsection \<open>The task of one note\<close>

text \<open>
  The part of \<^verbatim>\<open>classifyAndMoveNote\<close> behind the membership test: look the folder up,
  create it when missing, rename the file to \<^verbatim>\<open>folder/name\<close>, return true. \<open>Inl\<close> is
  a throw.
\<close>

definition move_note :: "env \<Rightarrow> tfile \<Rightarrow> jsstring \<Rightarrow> (error + bool) \<times> event list" where
  "move_note e file chosenFolder =
     (let targetFolderPath = chosenFolder;
          lookup = [GetAbstractFileByPath targetFolderPath];
          newPath = targetFolderPath @ str ''/'' @ name file
      in if \<not> getAbstractFileByPath e targetFolderPath then
           (case createFolder e targetFolderPath of
              Some err \<Rightarrow> (Inl err, lookup @ [CreateFolder targetFolderPath])
            | None \<Rightarrow>
                (case rename e newPath of
                   Some err \<Rightarrow> (Inl err, lookup @ [CreateFolder targetFolderPath, Rename file newPath])
                 | None \<Rightarrow> (Inr True, lookup @ [CreateFolder targetFolderPath, Rename file newPath])))
         else
           (case rename e newPath of
              Some err \<Rightarrow> (Inl err, lookup @ [Rename file newPath])
            | None \<Rightarrow> (Inr True, lookup @ [Rename file newPath])))"

text \<open>The body of the \<^verbatim>\<open>try\<close> block of \<^verbatim>\<open>classifyAndMoveNote\<close>.\<close>

definition classifyAndMoveNote_try :: "env \<Rightarrow> settings \<Rightarrow> tfile \<Rightarrow> (error + bool) \<times> event list" where
  "classifyAndMoveNote_try e s file =
     (case vault_read e of
        Inl err \<Rightarrow> (Inl err, [Read file])
      | Inr content \<Rightarrow>
          if trim content = [] then (Inr False, [Read file])
          else
            (let (chosenFolder, evs) = classifyNote e s content
             in case chosenFolder of
                  None \<Rightarrow> (Inr False, Read file # evs)
                | Some c \<Rightarrow>
                    if c \<noteq> [] \<and> c \<in> set (targetFolders s) then
                      (let (r, evs') = move_note e file c in (r, Read file # evs @ evs'))
                    else (Inr False, Read file # evs)))"

text \<open>
  \<^verbatim>\<open>classifyAndMoveNote\<close>: the \<^verbatim>\<open>catch\<close> turns every throw of the body into the
  value false. The result is how the promise settles: \<open>Inr v\<close> fulfilled with \<open>v\<close>,
  \<open>Inl err\<close> rejected.
\<close>

definition classifyAndMoveNote :: "env \<Rightarrow> settings \<Rightarrow> tfile \<Rightarrow> (error + bool) \<times> event list" where
  "classifyAndMoveNote e s file =
     (case classifyAndMoveNote_try e s file of
        (Inl err, evs) \<Rightarrow> (Inr False, evs)
      | (Inr v, evs) \<Rightarrow> (Inr v, evs))"

subsection \<open>The run\<close>

definition getCurrentApiKey :: "settings \<Rightarrow> jsstring" where
  "getCurrentApiKey s =
     (if aiModel s = str ''gemini'' then geminiApiKey s
      else if aiModel s = str ''claude'' then claudeApiKey s
      else if aiModel s = str ''gpt'' then gptApiKey s
      else [])"

definition autoDetectTargetFolders :: "world \<Rightarrow> settings \<Rightarrow> settings" where
  "autoDetectTargetFolders w s =
     s\<lparr>targetFolders :=
         map afile_name
           (filter (\<lambda>f. is_TFolder f \<and> \<not> includes_slash (afile_path f)) (getAllLoadedFiles w))\<rparr>"

text \<open>
  \<^verbatim>\<open>sortNotes\<close> returns the settings it leaves behind, its events, and whether the
  confirmation modal was opened.
\<close>

definition sortNotes :: "world \<Rightarrow> settings \<Rightarrow> settings \<times> event list \<times> bool" where
  "sortNotes w s =
     (let currentApiKey = getCurrentApiKey s
      in if currentApiKey = [] then (s, [Notice (PleaseSetApiKey (aiModel s))], False)
         else
           (let s' = (if useAutoDetection s then autoDetectTargetFolders w s else s)
            in (s', [OpenModal], True)))"

text \<open>
  A batch is an array object made by \<^verbatim>\<open>files.slice\<close>. \<^verbatim>\<open>batches.indexOf(batch)\<close>
  compares array objects by identity, so each batch carries the number of its allocation
  as its identity.
\<close>

record batch =
  array_id :: nat
  elems :: "tfile list"

definition slice :: "'a list \<Rightarrow> nat \<Rightarrow> nat \<Rightarrow> 'a list" where
  "slice xs i j = take (j - i) (drop i xs)"

text \<open>
  The loop \<^verbatim>\<open>for (let i = 0; i < files.length; i += batchSize)\<close>. It does not end when
  \<^verbatim>\<open>batchSize\<close> is 0 and there is a file; then the value is \<open>None\<close>.
\<close>

partial_function (option) batch_loop :: "tfile list \<Rightarrow> nat \<Rightarrow> nat \<Rightarrow> batch list \<Rightarrow> batch list option" where
  "batch_loop files batchSize i batches =
     (if i < length files then
        batch_loop files batchSize (i + batchSize)
          (batches @ [\<lparr>array_id = length batches, elems = slice files i (i + batchSize)\<rparr>])
      else Some batches)"

declare batch_loop.simps [code]

text \<open>\<^verbatim>\<open>batches.indexOf(batch)\<close>: the first index holding the same object, or -1.\<close>

fun indexOf :: "batch list \<Rightarrow> batch \<Rightarrow> int" where
  "indexOf [] b = -1"
| "indexOf (x # xs) b =
     (if array_id x = array_id b then 0
      else (let r = indexOf xs b in if r < 0 then -1 else r + 1))"

text \<open>An entry of the array that \<^verbatim>\<open>Promise.allSettled\<close> resolves to.\<close>

datatype settled = Fulfilled bool | Rejected error

fun allSettled1 :: "error + bool \<Rightarrow> settled" where
  "allSettled1 (Inr v) = Fulfilled v"
| "allSettled1 (Inl err) = Rejected err"

text \<open>
  The \<^verbatim>\<open>results.forEach\<close> of \<^verbatim>\<open>performSort\<close>, on the counters
  \<open>(totalMoved, totalErrors)\<close>.
\<close>

fun tally :: "settled list \<Rightarrow> nat \<times> nat \<Rightarrow> nat \<times> nat" where
  "tally [] (totalMoved, totalErrors) = (totalMoved, totalErrors)"
| "tally (Fulfilled v # rs) (totalMoved, totalErrors) =
     (if v then tally rs (totalMoved + 1, totalErrors) else tally rs (totalMoved, totalErrors + 1))"
| "tally (Rejected err # rs) (totalMoved, totalErrors) = tally rs (totalMoved, totalErrors + 1)"

text \<open>
  One window: the tasks of the batch are started in order and all awaited. The events of
  the tasks are listed task by task.
\<close>

definition run_window :: "world \<Rightarrow> settings \<Rightarrow> batch \<Rightarrow> settled list \<times> event list" where
  "run_window w s b =
     (let promises = map (\<lambda>file. classifyAndMoveNote (task_env w file) s file) (elems b)
      in (map (allSettled1 \<circ> fst) promises, concat (map snd promises)))"

text \<open>The pacing step at the end of the loop body.\<close>

definition pacing :: "batch list \<Rightarrow> batch \<Rightarrow> event list" where
  "pacing batches b = (if indexOf batches b < int (length batches) - 1 then [Delay 1000] else [])"

text \<open>The loop \<^verbatim>\<open>for (const batch of batches)\<close>; \<open>batches\<close> is the whole array.\<close>

fun window_loop ::
  "world \<Rightarrow> settings \<Rightarrow> batch list \<Rightarrow> batch list \<Rightarrow> nat \<times> nat \<Rightarrow> (nat \<times> nat) \<times> event list" where
  "window_loop w s batches [] totals = (totals, [])"
| "window_loop w s batches (b # rest) totals =
     (let (results, evs) = run_window w s b;
          totals' = tally results totals;
          pause = pacing batches b;
          (final, evs') = window_loop w s batches rest totals'
      in (final, evs @ pause @ evs'))"

definition select_files :: "world \<Rightarrow> settings \<Rightarrow> tfile list" where
  "select_files w s =
     filter (\<lambda>file.
        if sourceFolder s = [] then \<not> includes_slash (path file)
        else startsWith (path file) (sourceFolder s @ str ''/'') \<or> path file = sourceFolder s)
       (getMarkdownFiles w)"

text \<open>\<^verbatim>\<open>performSort\<close>: the trace of the run, \<open>None\<close> when the batching loop does not end.\<close>

definition performSort :: "world \<Rightarrow> settings \<Rightarrow> event list option" where
  "performSort w s =
     (let files = select_files w s
      in if length files = 0 then Some [Notice NoNotesFound]
         else
           (case batch_loop files (maxWorkers s) 0 [] of
              None \<Rightarrow> None
            | Some batches \<Rightarrow>
                (let ((totalMoved, totalErrors), evs) = window_loop w s batches batches (0, 0)
                 in Some ([Notice (StartingSort (length files) (aiModel s))] @ evs
                          @ [Notice (SortingComplete totalMoved totalErrors)]))))"

text \<open>
  A whole run: the command calls \<^verbatim>\<open>sortNotes\<close>; when the modal opens, the user either
  presses "Sort Notes" (\<open>confirm\<close>), which calls \<^verbatim>\<open>performSort\<close>, or cancels.
\<close>

definition run :: "world \<Rightarrow> settings \<Rightarrow> bool \<Rightarrow> event list option" where
  "run w s confirm =
     (case sortNotes w s of
        (s', evs, opened) \<Rightarrow>
          if opened \<and> confirm then map_option (\<lambda>tr. evs @ tr) (performSort w s')
          else Some evs)"

subsection \<open>Reading a trace\<close>

text \<open>
  The test of the \<^verbatim>\<open>forEach\<close>: \<^verbatim>\<open>result.status === 'fulfilled' && result.value\<close>.
\<close>

fun counts_moved :: "settled \<Rightarrow> bool" where
  "counts_moved (Fulfilled v) = v"
| "counts_moved (Rejected err) = False"

text \<open>Whether the task of a file returns true.\<close>

definition task_moves :: "world \<Rightarrow> settings \<Rightarrow> tfile \<Rightarrow> bool" where
  "task_moves w s file \<longleftrightarrow> fst (classifyAndMoveNote (task_env w file) s file) = Inr True"

fun is_Read :: "event \<Rightarrow> bool" where
  "is_Read (Read file) = True"
| "is_Read ev = False"

fun is_Fetch :: "event \<Rightarrow> bool" where
  "is_Fetch (Fetch r) = True"
| "is_Fetch ev = False"

fun is_Delay :: "event \<Rightarrow> bool" where
  "is_Delay (Delay ms) = True"
| "is_Delay ev = False"

text \<open>The events that change the vault.\<close>

fun is_relocation :: "event \<Rightarrow> bool" where
  "is_relocation (CreateFolder p) = True"
| "is_relocation (Rename file p) = True"
| "is_relocation ev = False"

text \<open>The notice of the credential check of \<^verbatim>\<open>sortNotes\<close>.\<close>

fun is_credential_notice :: "event \<Rightarrow> bool" where
  "is_credential_notice (Notice (PleaseSetApiKey m)) = True"
| "is_credential_notice ev = False"

text \<open>
  The three ways in which the \<^verbatim>\<open>try\<close> block of \<^verbatim>\<open>classifyAndMoveNote\<close> returns false
  without a throw: blank content, no label from \<^verbatim>\<open>classifyNote\<close>, a label outside
  \<^verbatim>\<open>targetFolders\<close>.
\<close>

definition skipped :: "env \<Rightarrow> settings \<Rightarrow> bool" where
  "skipped e s =
     (case vault_read e of
        Inl err \<Rightarrow> False
      | Inr content \<Rightarrow>
          if trim content = [] then True
          else (case fst (classifyNote e s content) of
                  None \<Rightarrow> True
                | Some c \<Rightarrow> c \<notin> set (targetFolders s)))"

subsection \<open>A small vault\<close>

text \<open>
  Three notes at the root of a vault, two target folders, two workers. The model answers
  \<^verbatim>\<open>Work\<close> for the first note, \<^verbatim>\<open>Unknown\<close> for the second and \<^verbatim>\<open>Personal\<close>
  (with blanks around it) for the third.
\<close>

definition root_note :: "string \<Rightarrow> tfile" where
  "root_note n = \<lparr>path = str n, name = str n\<rparr>"

definition replying :: "jsstring \<Rightarrow> jsstring \<Rightarrow> env" where
  "replying content reply =
     \<lparr>vault_read = Inr content,
      fetch = (\<lambda>req. Inr \<lparr>ok = True, status = 200, json = Inr (Text reply)\<rparr>),
      getAbstractFileByPath = (\<lambda>p. True),
      createFolder = (\<lambda>p. None),
      rename = (\<lambda>p. None)\<rparr>"

definition demo_settings :: settings where
  "demo_settings =
     \<lparr>aiModel = str ''gemini'', geminiApiKey = str ''k'', claudeApiKey = [], gptApiKey = [],
      sourceFolder = [], useAutoDetection = False,
      targetFolders = [str ''Work'', str ''Personal''], maxWorkers = 2\<rparr>"

definition demo_world :: world where
  "demo_world =
     \<lparr>getMarkdownFiles = [root_note ''a.md'', root_note ''b.md'', root_note ''c.md''],
      getAllLoadedFiles =
        [TFolder (str ''/'') [], TFolder (str ''Work'') (str ''Work''),
         TFolder (str ''Personal'') (str ''Personal'')],
      task_env = (\<lambda>file.
        if file = root_note ''a.md'' then replying (str ''alpha'') (str ''Work'')
        else if file = root_note ''b.md'' then replying (str ''beta'') (str ''Unknown'')
        else replying (str ''gamma'') (str '' Personal ''))\<rparr>"

text \<open>
  A vault with one note and no folder but its root (whose path is \<^verbatim>\<open>/\<close>), with
  auto-detection switched on.
\<close>

definition bare_settings :: settings where
  "bare_settings = demo_settings\<lparr>useAutoDetection := True\<rparr>"

definition bare_world :: world where
  "bare_world =
     \<lparr>getMarkdownFiles = [root_note ''a.md''],
      getAllLoadedFiles = [TFolder (str ''/'') [], TFile (str ''a.md'') (str ''a.md'')],
      task_env = (\<lambda>file. replying (str ''alpha'') (str ''Work''))\<rparr>"

section \<open>Auxiliary facts\<close>

subsection \<open>The batching loop\<close>

lemma ceil_step:
  assumes "0 < (k::nat)" "0 < d"
  shows "Suc ((d - k + k - 1) div k) = (d + k - 1) div k"
proof (cases "k \<le> d")
  case True
  have e1: "d - k + k - 1 = d - 1" using True by simp
  have e2: "d + k - 1 = (d - 1) + k" using assms by simp
  have "k \<noteq> 0" using assms by simp
  then have e3: "((d - 1) + k) div k = (d - 1) div k + 1" by (rule div_add_self2)
  show ?thesis by (simp only: e1 e2 e3 Suc_eq_plus1)
next
  case False
  have a: "d - k + k - 1 = k - 1" using False by simp
  have b: "(k - 1) div k = 0" using assms by simp
  have "k * 1 \<le> d + k - 1" "d + k - 1 < k * Suc 1" using assms False by simp_all
  then have c: "(d + k - 1) div k = 1"
    by (rule div_nat_eqI)
  show ?thesis unfolding a b c by simp
qed

lemma batch_loop_spec:
  assumes "0 < k"
  shows "\<exists>bs. batch_loop files k i acc = Some (acc @ bs)
            \<and> concat (map elems bs) = drop i files
            \<and> length bs = (length files - i + k - 1) div k
            \<and> (\<forall>b\<in>set bs. length (elems b) \<le> k)
            \<and> map array_id bs = [length acc ..< length acc + length bs]"
proof (induction "length files - i" arbitrary: i acc rule: less_induct)
  case less
  show ?case
  proof (cases "i < length files")
    case False
    have "batch_loop files k i acc = Some (acc @ [])"
      using False by (subst batch_loop.simps) simp
    moreover have "(length files - i + k - 1) div k = 0" using False assms by simp
    ultimately show ?thesis using False by (intro exI [of _ "[]"]) simp
  next
    case True
    let ?b = "\<lparr>array_id = length acc, elems = slice files i (i + k)\<rparr>"
    have dec: "length files - (i + k) < length files - i" using True assms by arith
    from less [OF dec, of "acc @ [?b]"] obtain bs where
      run: "batch_loop files k (i + k) (acc @ [?b]) = Some ((acc @ [?b]) @ bs)" and
      cat: "concat (map elems bs) = drop (i + k) files" and
      len: "length bs = (length files - (i + k) + k - 1) div k" and
      sz: "\<forall>b\<in>set bs. length (elems b) \<le> k" and
      ids: "map array_id bs = [length (acc @ [?b]) ..< length (acc @ [?b]) + length bs]"
      by blast
    have 1: "batch_loop files k i acc = Some (acc @ (?b # bs))"
      using True run by (subst batch_loop.simps) simp
    have 2: "concat (map elems (?b # bs)) = drop i files"
      using cat by (simp add: slice_def add.commute [of i k] flip: drop_drop)
    have "Suc ((length files - i - k + k - 1) div k) = (length files - i + k - 1) div k"
      using True assms by (intro ceil_step) simp_all
    then have 3: "length (?b # bs) = (length files - i + k - 1) div k"
      using len by (simp add: diff_diff_left)
    have 4: "\<forall>b\<in>set (?b # bs). length (elems b) \<le> k"
      using sz by (simp add: slice_def)
    have 5: "map array_id (?b # bs) = [length acc ..< length acc + length (?b # bs)]"
      using ids by (simp add: upt_conv_Cons del: upt_Suc)
    show ?thesis using 1 2 3 4 5 by blast
  qed
qed

lemma indexOf_hit:
  "distinct (map array_id bs) \<Longrightarrow> j < length bs \<Longrightarrow> indexOf bs (bs ! j) = int j"
proof (induction bs arbitrary: j)
  case Nil
  then show ?case by simp
next
  case (Cons x xs)
  show ?case
  proof (cases j)
    case 0
    then show ?thesis by simp
  next
    case (Suc j')
    with Cons.prems have "j' < length xs" "array_id x \<noteq> array_id (xs ! j')" by auto
    moreover have "indexOf xs (xs ! j') = int j'" using Cons Suc by simp
    ultimately show ?thesis using Suc by (simp add: Let_def)
  qed
qed

text \<open>With a batch size of 0 and a file left, the loop never ends, and neither does the run.\<close>

lemma batch_loop_stuck:
  assumes "batch_loop files k i acc = Some y"
  shows "k = 0 \<longrightarrow> length files \<le> i"
proof (rule batch_loop.raw_induct [where P = "\<lambda>files k i acc y. k = 0 \<longrightarrow> length files \<le> i", OF _ assms])
  fix f files k i acc y
  assume ih: "\<And>files k i acc y. f files k i acc = Some y \<Longrightarrow> k = 0 \<longrightarrow> length files \<le> i"
    and step: "(if i < length files then
        f files k (i + k)
          (acc @ [\<lparr>array_id = length acc, elems = slice files i (i + k)\<rparr>])
      else Some acc) = Some y"
  show "k = 0 \<longrightarrow> length files \<le> i"
  proof (cases "i < length files")
    case True
    with step have "f files k (i + k) (acc @ [\<lparr>array_id = length acc, elems = slice files i (i + k)\<rparr>]) = Some y"
      by simp
    then have "k = 0 \<longrightarrow> length files \<le> i + k" by (rule ih)
    then show ?thesis by simp
  next
    case False
    then show ?thesis by simp
  qed
qed

lemma batch_loop_zero:
  assumes "i < length files"
  shows "batch_loop files 0 i acc = None"
proof (cases "batch_loop files 0 i acc")
  case None
  then show ?thesis .
next
  case (Some y)
  then have "length files \<le> i" using batch_loop_stuck by blast
  with assms show ?thesis by simp
qed

lemma performSort_zero_workers:
  assumes "maxWorkers s = 0" "select_files w s \<noteq> []"
  shows "performSort w s = None"
  using assms batch_loop_zero [of 0 "select_files w s" "[]"]
  by (simp add: performSort_def)

subsection \<open>Counting and the window loop\<close>

lemma tally_count:
  "tally rs (m, e) =
     (m + length (filter counts_moved rs), e + length (filter (\<lambda>r. \<not> counts_moved r) rs))"
proof (induction rs arbitrary: m e)
  case Nil
  then show ?case by simp
next
  case (Cons r rs)
  then show ?case by (cases r) simp_all
qed

lemma tally_append: "tally (xs @ ys) t = tally ys (tally xs t)"
  by (cases t) (simp add: tally_count)

lemma window_loop_eq:
  "window_loop w s batches rest totals =
     (tally (concat (map (\<lambda>b. fst (run_window w s b)) rest)) totals,
      concat (map (\<lambda>b. snd (run_window w s b) @ pacing batches b) rest))"
proof (induction rest arbitrary: totals)
  case Nil
  then show ?case by (cases totals) simp
next
  case (Cons b rest)
  then show ?case by (simp add: tally_append split: prod.splits)
qed

lemma classifyAndMoveNote_fulfilled:
  "fst (classifyAndMoveNote e s file) = Inr True \<or> fst (classifyAndMoveNote e s file) = Inr False"
  by (simp add: classifyAndMoveNote_def split: prod.splits sum.splits)

lemma counts_moved_task:
  "counts_moved (allSettled1 (fst (classifyAndMoveNote (task_env w file) s file))) = task_moves w s file"
  using classifyAndMoveNote_fulfilled [of "task_env w file" s "file"]
  by (auto simp: task_moves_def)

lemma run_window_results:
  "fst (run_window w s b) =
     map (\<lambda>file. allSettled1 (fst (classifyAndMoveNote (task_env w file) s file))) (elems b)"
  by (simp add: run_window_def)

lemma run_window_events:
  "snd (run_window w s b) =
     concat (map (\<lambda>file. snd (classifyAndMoveNote (task_env w file) s file)) (elems b))"
  by (simp add: run_window_def comp_def)

lemma all_results:
  "concat (map (\<lambda>b. fst (run_window w s b)) bs) =
     map (\<lambda>file. allSettled1 (fst (classifyAndMoveNote (task_env w file) s file))) (concat (map elems bs))"
  by (induction bs) (simp_all add: run_window_results)

lemma tally_tasks:
  "tally (map (\<lambda>file. allSettled1 (fst (classifyAndMoveNote (task_env w file) s file))) files) (0, 0) =
     (length (filter (task_moves w s) files), length (filter (\<lambda>file. \<not> task_moves w s file) files))"
  by (simp add: tally_count filter_map comp_def counts_moved_task)

lemma pacing_nth:
  assumes "distinct (map array_id bs)" "j < length bs"
  shows "pacing bs (bs ! j) = (if Suc j < length bs then [Delay 1000] else [])"
  using assms indexOf_hit [OF assms] by (auto simp: pacing_def)

lemma performSort_shape:
  assumes "0 < maxWorkers s" "select_files w s \<noteq> []"
  shows "\<exists>bs. batch_loop (select_files w s) (maxWorkers s) 0 [] = Some bs
           \<and> distinct (map array_id bs)
           \<and> concat (map elems bs) = select_files w s
           \<and> performSort w s =
               Some ([Notice (StartingSort (length (select_files w s)) (aiModel s))]
                     @ concat (map (\<lambda>b. snd (run_window w s b) @ pacing bs b) bs)
                     @ [Notice (SortingComplete
                          (length (filter (task_moves w s) (select_files w s)))
                          (length (filter (\<lambda>file. \<not> task_moves w s file) (select_files w s))))])"
proof -
  from batch_loop_spec [OF assms(1), of "select_files w s" 0 "[]"] obtain bs where
    run: "batch_loop (select_files w s) (maxWorkers s) 0 [] = Some bs" and
    cat: "concat (map elems bs) = select_files w s" and
    ids: "map array_id bs = [0 ..< length bs]"
    by auto
  have d: "distinct (map array_id bs)" by (simp add: ids)
  have t: "tally (concat (map (\<lambda>b. fst (run_window w s b)) bs)) (0, 0) =
     (length (filter (task_moves w s) (select_files w s)),
      length (filter (\<lambda>file. \<not> task_moves w s file) (select_files w s)))"
    by (simp only: all_results cat tally_tasks)
  have "performSort w s =
               Some ([Notice (StartingSort (length (select_files w s)) (aiModel s))]
                     @ concat (map (\<lambda>b. snd (run_window w s b) @ pacing bs b) bs)
                     @ [Notice (SortingComplete
                          (length (filter (task_moves w s) (select_files w s)))
                          (length (filter (\<lambda>file. \<not> task_moves w s file) (select_files w s))))])"
    using assms(2) by (simp add: performSort_def run window_loop_eq t Let_def)
  with run d cat show ?thesis by blast
qed

subsection \<open>The ceiling\<close>

lemma ceil_nat:
  assumes "0 < (k::nat)"
  shows "int ((n + k - 1) div k) = \<lceil>real n / real k\<rceil>"
proof -
  define q where "q = (n + k - 1) div k"
  have "n + k - 1 < k + k * q"
    unfolding q_def using assms by (rule dividend_less_times_div)
  then have up: "n \<le> q * k" using assms by (simp add: mult.commute)
  have "q * k \<le> n + k - 1"
    unfolding q_def by (rule div_times_less_eq_dividend)
  then have lo: "q * k < n + k" using assms by simp
  have kpos: "0 < real k" using assms by simp
  have "real n \<le> real q * real k"
    using up by (metis of_nat_le_iff of_nat_mult)
  then have a: "real n / real k \<le> real q"
    using kpos by (simp add: pos_divide_le_eq)
  have "real q * real k < real n + real k"
    using lo by (metis of_nat_less_iff of_nat_mult of_nat_add)
  then have "(real q - 1) * real k < real n"
    by (simp add: algebra_simps)
  then have b: "real q - 1 < real n / real k"
    using kpos by (simp add: pos_less_divide_eq)
  have "\<lceil>real n / real k\<rceil> = int q"
    using a b by (intro ceiling_unique) simp_all
  then show ?thesis by (simp add: q_def)
qed

subsection \<open>The events of a task and of a window\<close>

lemma snd_case_sum: "snd (case r of Inl a \<Rightarrow> (f a, evs) | Inr b \<Rightarrow> (g b, evs)) = evs"
  by (cases r) simp_all

lemma call_api_events: "snd (call_api e r) = [Fetch r]"
  by (simp add: call_api_def split: sum.splits)

lemma classifyNote_events:
  "snd (classifyNote e s c) =
     (if aiModel s = str ''gemini''
        then [Fetch \<lparr>endpoint = Gemini, credential = geminiApiKey s, body = build_prompt s c\<rparr>]
      else if aiModel s = str ''claude''
        then [Fetch \<lparr>endpoint = Claude, credential = claudeApiKey s, body = build_prompt s c\<rparr>]
      else if aiModel s = str ''gpt''
        then [Fetch \<lparr>endpoint = GPT, credential = gptApiKey s, body = build_prompt s c\<rparr>]
      else [])"
  by (simp add: classifyNote_def Let_def case_prod_beta snd_case_sum callGeminiAPI_def
      callClaudeAPI_def callGPTAPI_def call_api_events)

lemma classifyNote_fetch_le1: "length (filter is_Fetch (snd (classifyNote e s c))) \<le> 1"
  by (simp add: classifyNote_events)

lemma classifyNote_no_delay: "filter is_Delay (snd (classifyNote e s c)) = []"
  by (simp add: classifyNote_events)

lemma classifyNote_no_relocation: "filter is_relocation (snd (classifyNote e s c)) = []"
  by (simp add: classifyNote_events)

lemma move_note_no_fetch: "filter is_Fetch (snd (move_note e f c)) = []"
  by (simp add: move_note_def Let_def split: option.splits)

lemma move_note_no_delay: "filter is_Delay (snd (move_note e f c)) = []"
  by (simp add: move_note_def Let_def split: option.splits)

lemma task_events:
  "snd (classifyAndMoveNote e s f) = snd (classifyAndMoveNote_try e s f)"
  by (simp add: classifyAndMoveNote_def split: prod.splits sum.splits)

lemma task_fetch_le1: "length (filter is_Fetch (snd (classifyAndMoveNote e s f))) \<le> 1"
  using classifyNote_fetch_le1 [of e s]
  by (simp add: task_events classifyAndMoveNote_try_def case_prod_beta move_note_no_fetch
      split: sum.splits option.splits)

lemma task_no_delay: "filter is_Delay (snd (classifyAndMoveNote e s f)) = []"
  by (simp add: task_events classifyAndMoveNote_try_def case_prod_beta move_note_no_delay
      classifyNote_no_delay split: sum.splits option.splits)

lemma task_no_relocation:
  "targetFolders s = [] \<Longrightarrow> filter is_relocation (snd (classifyAndMoveNote e s f)) = []"
  by (simp add: task_events classifyAndMoveNote_try_def case_prod_beta
      classifyNote_no_relocation split: sum.splits option.splits)

lemma task_not_moved:
  "targetFolders s = [] \<Longrightarrow> fst (classifyAndMoveNote e s f) = Inr False"
  by (simp add: classifyAndMoveNote_def classifyAndMoveNote_try_def case_prod_beta
      split: sum.splits option.splits prod.splits)

lemma window_fetch_le: "length (filter is_Fetch (snd (run_window w s b))) \<le> length (elems b)"
proof -
  have "length (filter is_Fetch (concat (map (\<lambda>file. snd (classifyAndMoveNote (task_env w file) s file)) fs)))
          \<le> length fs" for fs
  proof (induction fs)
    case Nil
    then show ?case by simp
  next
    case (Cons a fs)
    then show ?case using task_fetch_le1 [of "task_env w a" s a] by simp
  qed
  then show ?thesis by (simp add: run_window_events)
qed

lemma window_no_delay: "filter is_Delay (snd (run_window w s b)) = []"
  by (simp add: run_window_events filter_concat comp_def task_no_delay)

subsection \<open>Answers of the provider\<close>

lemma call_api_result:
  assumes "fetch e = (\<lambda>req. Inr resp)" "ok resp" "json resp = Inr fld"
  shows "fst (call_api e r) = Inr (or_null fld)"
  using assms by (simp add: call_api_def)

lemma classifyNote_result:
  assumes "fetch e = (\<lambda>req. Inr resp)" "ok resp" "json resp = Inr fld"
  shows "fst (classifyNote e s c) =
     (if aiModel s = str ''gemini'' \<or> aiModel s = str ''claude'' \<or> aiModel s = str ''gpt''
      then trim_or_null (or_null fld) else None)"
  by (simp add: classifyNote_def Let_def case_prod_beta callGeminiAPI_def callClaudeAPI_def
      callGPTAPI_def call_api_result [OF assms])

lemma classifyNote_label:
  assumes "fetch e = (\<lambda>req. Inr resp)" "ok resp" "json resp = Inr (Text raw)"
    and "fst (classifyNote e s c) = Some l"
  shows "l = trim raw"
  using assms(4) unfolding classifyNote_result [OF assms(1-3)]
  by (simp split: if_splits)

lemma classifyNote_blank:
  assumes "fetch e = (\<lambda>req. Inr resp)" "ok resp" "json resp = Inr (Text t)" "trim t = []"
  shows "fst (classifyNote e s c) = None"
  unfolding classifyNote_result [OF assms(1-3)] using assms(4) by simp

lemma classifyNote_absent:
  assumes "fetch e = (\<lambda>req. Inr resp)" "ok resp" "json resp = Inr Absent"
  shows "fst (classifyNote e s c) = None"
  unfolding classifyNote_result [OF assms] by simp

subsection \<open>Skips\<close>

lemma skipped_try:
  assumes "skipped e s"
  shows "fst (classifyAndMoveNote_try e s f) = Inr False"
    and "filter is_relocation (snd (classifyAndMoveNote_try e s f)) = []"
  using assms
  by (simp_all add: skipped_def classifyAndMoveNote_try_def case_prod_beta
      classifyNote_no_relocation split: sum.splits option.splits if_splits)

lemma skipped_not_moved:
  assumes "skipped e s"
  shows "fst (classifyAndMoveNote e s f) = Inr False"
  using skipped_try(1) [OF assms, of f]
  by (auto simp: classifyAndMoveNote_def split: prod.splits sum.splits)

lemma read_error_task:
  assumes "vault_read e = Inl err"
  shows "classifyAndMoveNote e s f = (Inr False, [Read f])"
  using assms by (simp add: classifyAndMoveNote_def classifyAndMoveNote_try_def)

lemma no_label_task:
  assumes "\<And>content. vault_read e = Inr content \<Longrightarrow> fst (classifyNote e s content) = None"
  shows "fst (classifyAndMoveNote e s f) = Inr False"
    and "filter is_relocation (snd (classifyAndMoveNote e s f)) = []"
proof -
  show "fst (classifyAndMoveNote e s f) = Inr False"
  proof (cases "vault_read e")
    case (Inl err)
    then show ?thesis by (simp add: read_error_task)
  next
    case (Inr content)
    then have "skipped e s" using assms by (simp add: skipped_def)
    then show ?thesis by (rule skipped_not_moved)
  qed
  show "filter is_relocation (snd (classifyAndMoveNote e s f)) = []"
  proof (cases "vault_read e")
    case (Inl err)
    then show ?thesis by (simp add: read_error_task)
  next
    case (Inr content)
    then have "skipped e s" using assms by (simp add: skipped_def)
    then show ?thesis by (simp add: task_events skipped_try(2))
  qed
qed


subsection \<open>Traces\<close>

lemma pacing_no_relocation: "filter is_relocation (pacing bs b) = []"
  by (simp add: pacing_def)

lemma pacing_no_credential_notice: "filter is_credential_notice (pacing bs b) = []"
  by (simp add: pacing_def)

lemma move_note_no_credential_notice: "filter is_credential_notice (snd (move_note e f c)) = []"
  by (simp add: move_note_def Let_def split: option.splits)

lemma task_no_credential_notice:
  "filter is_credential_notice (snd (classifyAndMoveNote e s f)) = []"
  by (simp add: task_events classifyAndMoveNote_try_def case_prod_beta
      move_note_no_credential_notice classifyNote_events split: sum.splits option.splits)

lemma window_no_credential_notice: "filter is_credential_notice (snd (run_window w s b)) = []"
  by (simp add: run_window_events filter_concat comp_def task_no_credential_notice)

lemma window_no_relocation:
  "targetFolders s = [] \<Longrightarrow> filter is_relocation (snd (run_window w s b)) = []"
  by (simp add: run_window_events filter_concat comp_def task_no_relocation)

lemma windows_no_relocation:
  "targetFolders s = [] \<Longrightarrow>
     filter is_relocation (concat (map (\<lambda>b. snd (run_window w s b) @ pacing batches b) bs)) = []"
  by (simp add: filter_concat comp_def window_no_relocation pacing_no_relocation)

lemma windows_no_credential_notice:
  "filter is_credential_notice (concat (map (\<lambda>b. snd (run_window w s b) @ pacing batches b) bs)) = []"
  by (simp add: filter_concat comp_def window_no_credential_notice pacing_no_credential_notice)

lemma windows_by_index:
  assumes "distinct (map array_id bs)"
  shows "concat (map (\<lambda>b. snd (run_window w s b) @ pacing bs b) bs) =
         concat (map (\<lambda>j. snd (run_window w s (bs ! j))
                          @ (if Suc j < length bs then [Delay 1000] else [])) [0..<length bs])"
proof -
  have "map (\<lambda>b. snd (run_window w s b) @ pacing bs b) bs =
        map (\<lambda>j. snd (run_window w s (bs ! j))
                          @ (if Suc j < length bs then [Delay 1000] else [])) [0..<length bs]"
    by (rule nth_equalityI) (simp_all add: pacing_nth [OF assms])
  then show ?thesis by (rule arg_cong)
qed

lemma performSort_cases:
  assumes "performSort w s = Some tr"
  shows "tr = [Notice NoNotesFound] \<or>
     (\<exists>bs m e. tr = [Notice (StartingSort (length (select_files w s)) (aiModel s))]
                @ concat (map (\<lambda>b. snd (run_window w s b) @ pacing bs b) bs)
                @ [Notice (SortingComplete m e)])"
proof (cases "select_files w s = []")
  case True
  then show ?thesis using assms by (simp add: performSort_def)
next
  case False
  show ?thesis
  proof (cases "batch_loop (select_files w s) (maxWorkers s) 0 []")
    case None
    then show ?thesis using assms False by (simp add: performSort_def)
  next
    case (Some bs)
    obtain m e where t: "tally (concat (map (\<lambda>b. fst (run_window w s b)) bs)) (0, 0) = (m, e)"
      by (cases "tally (concat (map (\<lambda>b. fst (run_window w s b)) bs)) (0, 0)")
    have "tr = [Notice (StartingSort (length (select_files w s)) (aiModel s))]
                @ concat (map (\<lambda>b. snd (run_window w s b) @ pacing bs b) bs)
                @ [Notice (SortingComplete m e)]"
      using assms False by (simp add: performSort_def Some window_loop_eq t Let_def)
    then show ?thesis by blast
  qed
qed

lemma performSort_no_credential_notice:
  assumes "performSort w s = Some tr"
  shows "filter is_credential_notice tr = []"
  using performSort_cases [OF assms]
  by (auto simp: windows_no_credential_notice)

subsection \<open>Reads and requests in a trace\<close>

lemma classifyNote_fetches:
  "filter is_Fetch (snd (classifyNote e s c)) =
     (if aiModel s = str ''gemini'' \<or> aiModel s = str ''claude'' \<or> aiModel s = str ''gpt''
      then [Fetch \<lparr>endpoint = (if aiModel s = str ''gemini'' then Gemini
                               else if aiModel s = str ''claude'' then Claude else GPT),
                   credential = getCurrentApiKey s, body = build_prompt s c\<rparr>]
      else [])"
  by (simp add: classifyNote_events getCurrentApiKey_def)

lemma classifyNote_no_read: "filter is_Read (snd (classifyNote e s c)) = []"
  by (simp add: classifyNote_events)

lemma move_note_no_read: "filter is_Read (snd (move_note e f c)) = []"
  by (simp add: move_note_def Let_def split: option.splits)

lemma task_reads_once: "filter is_Read (snd (classifyAndMoveNote e s f)) = [Read f]"
  by (simp add: task_events classifyAndMoveNote_try_def case_prod_beta move_note_no_read
      classifyNote_no_read split: sum.splits option.splits)

lemma task_fetches:
  "filter is_Fetch (snd (classifyAndMoveNote e s f)) =
     (case vault_read e of
        Inl err \<Rightarrow> []
      | Inr content \<Rightarrow>
          if trim content = [] then [] else filter is_Fetch (snd (classifyNote e s content)))"
  by (simp add: task_events classifyAndMoveNote_try_def case_prod_beta move_note_no_fetch
      split: sum.splits option.splits)

lemma windows_filter:
  assumes "\<And>b. filter P (pacing batches b) = []"
  shows "filter P (concat (map (\<lambda>b. snd (run_window w s b) @ pacing batches b) bs)) =
         concat (map (\<lambda>file. filter P (snd (classifyAndMoveNote (task_env w file) s file)))
                   (concat (map elems bs)))"
  by (induction bs) (simp_all add: assms run_window_events filter_concat comp_def)

lemma pacing_no_read: "filter is_Read (pacing bs b) = []"
  by (simp add: pacing_def)

lemma pacing_no_fetch: "filter is_Fetch (pacing bs b) = []"
  by (simp add: pacing_def)

lemma key_known_model:
  "getCurrentApiKey s \<noteq> [] \<Longrightarrow>
     aiModel s = str ''gemini'' \<or> aiModel s = str ''claude'' \<or> aiModel s = str ''gpt''"
  by (simp add: getCurrentApiKey_def split: if_splits)

subsection \<open>The small vault, evaluated\<close>

lemma demo_select: "select_files demo_world demo_settings = [root_note ''a.md'', root_note ''b.md'', root_note ''c.md'']"
  by code_simp

lemma demo_delays:
  "map_option (filter is_Delay) (performSort demo_world demo_settings) = Some [Delay 1000]"
  by code_simp

lemma demo_skip: "skipped (task_env demo_world (root_note ''b.md'')) demo_settings"
  by code_simp

lemma demo_moves:
  "filter (task_moves demo_world demo_settings) [root_note ''a.md'', root_note ''b.md'', root_note ''c.md'']
     = [root_note ''a.md'', root_note ''c.md'']"
  by code_simp

lemma demo_stays:
  "filter (\<lambda>file. \<not> task_moves demo_world demo_settings file) [root_note ''a.md'', root_note ''b.md'', root_note ''c.md'']
     = [root_note ''b.md'']"
  by code_simp

lemma bare_select: "select_files bare_world (bare_settings\<lparr>targetFolders := []\<rparr>) = [root_note ''a.md'']"
  by code_simp

lemma bare_fetches:
  "(if aiModel (bare_settings\<lparr>targetFolders := []\<rparr>) = str ''gemini''
       \<or> aiModel (bare_settings\<lparr>targetFolders := []\<rparr>) = str ''claude''
       \<or> aiModel (bare_settings\<lparr>targetFolders := []\<rparr>) = str ''gpt''
    then concat (map (\<lambda>file.
           case vault_read (task_env bare_world file) of
             Inl err \<Rightarrow> []
           | Inr content \<Rightarrow>
               if trim content = [] then []
               else [Fetch \<lparr>endpoint = (if aiModel (bare_settings\<lparr>targetFolders := []\<rparr>) = str ''gemini'' then Gemini
                                         else if aiModel (bare_settings\<lparr>targetFolders := []\<rparr>) = str ''claude'' then Claude else GPT),
                            credential = getCurrentApiKey (bare_settings\<lparr>targetFolders := []\<rparr>),
                            body = build_prompt (bare_settings\<lparr>targetFolders := []\<rparr>) content\<rparr>])
         [root_note ''a.md''])
    else [])
   = [Fetch \<lparr>endpoint = Gemini, credential = str ''k'',
              body = build_prompt (bare_settings\<lparr>targetFolders := []\<rparr>) (str ''alpha'')\<rparr>]"
  by code_simp

section \<open>The claims\<close>

text \<open>
  C1, as the source has it. The claim that a run with an empty list of target folders
  aborts at once, without a read and without a call to the provider, fails:
  \<^verbatim>\<open>performSort\<close> has no test on \<^verbatim>\<open>targetFolders\<close>. In a vault without folders,
  auto-detection leaves the list empty, and the confirmed run still reads the note, sends
  the request and reports \<open>Moved: 0, Errors: 1\<close>.
\<close>

theorem empty_labels_still_classified:
  "targetFolders (fst (sortNotes bare_world bare_settings)) = []
   \<and> run bare_world bare_settings True
       = Some [OpenModal,
               Notice (StartingSort 1 (str ''gemini'')),
               Read (root_note ''a.md''),
               Fetch \<lparr>endpoint = Gemini, credential = str ''k'',
                      body = build_prompt (bare_settings\<lparr>targetFolders := []\<rparr>) (str ''alpha'')\<rparr>,
               Notice (SortingComplete 0 1)]"
  by code_simp

text \<open>
  C1, amended. When \<^verbatim>\<open>targetFolders\<close> is empty, with at least one worker and n selected
  notes (n at least 1), the run does not abort and throws nothing: it ends with the
  summary \<open>Moved: 0, Errors: n\<close>; its trace holds no folder creation and no rename; its
  reads are exactly one read of each selected note, in order; and when the selected model
  is one of \<^verbatim>\<open>gemini\<close>, \<^verbatim>\<open>claude\<close>, \<^verbatim>\<open>gpt\<close>, its requests to the provider are exactly
  one request, carrying the prompt built from the content, for each selected note whose
  read succeeded with a content that is not blank, in order, and none for the other notes
  (with any other model name no request is sent at all). A run that passed the credential
  check of \<^verbatim>\<open>sortNotes\<close> has one of the three models.
\<close>

theorem empty_labels_move_nothing:
  assumes "targetFolders s = []" "0 < maxWorkers s" "select_files w s \<noteq> []"
  shows "\<exists>evs. performSort w s =
           Some ([Notice (StartingSort (length (select_files w s)) (aiModel s))] @ evs
                 @ [Notice (SortingComplete 0 (length (select_files w s)))])
         \<and> filter is_relocation evs = []
         \<and> filter is_Read evs = map Read (select_files w s)
         \<and> filter is_Fetch evs =
             (if aiModel s = str ''gemini'' \<or> aiModel s = str ''claude'' \<or> aiModel s = str ''gpt''
              then concat (map (\<lambda>file.
                     case vault_read (task_env w file) of
                       Inl err \<Rightarrow> []
                     | Inr content \<Rightarrow>
                         if trim content = [] then []
                         else [Fetch \<lparr>endpoint = (if aiModel s = str ''gemini'' then Gemini
                                                   else if aiModel s = str ''claude'' then Claude else GPT),
                                      credential = getCurrentApiKey s,
                                      body = build_prompt s content\<rparr>])
                   (select_files w s))
              else [])
         \<and> (getCurrentApiKey s \<noteq> [] \<longrightarrow>
               aiModel s = str ''gemini'' \<or> aiModel s = str ''claude'' \<or> aiModel s = str ''gpt'')"
proof -
  from performSort_shape [OF assms(2,3)] obtain bs where
    cat: "concat (map elems bs) = select_files w s" and
    tr: "performSort w s =
       Some ([Notice (StartingSort (length (select_files w s)) (aiModel s))]
             @ concat (map (\<lambda>b. snd (run_window w s b) @ pacing bs b) bs)
             @ [Notice (SortingComplete
                  (length (filter (task_moves w s) (select_files w s)))
                  (length (filter (\<lambda>file. \<not> task_moves w s file) (select_files w s))))])"
    by blast
  let ?evs = "concat (map (\<lambda>b. snd (run_window w s b) @ pacing bs b) bs)"
  have nm: "\<not> task_moves w s f" for f
    using task_not_moved [OF assms(1), of "task_env w f" f] by (simp add: task_moves_def)
  have 1: "performSort w s =
           Some ([Notice (StartingSort (length (select_files w s)) (aiModel s))] @ ?evs
                 @ [Notice (SortingComplete 0 (length (select_files w s)))])"
    using tr by (simp add: nm)
  have 2: "filter is_relocation ?evs = []"
    using assms(1) by (rule windows_no_relocation)
  have "filter is_Read ?evs = concat (map (\<lambda>file. [Read file]) (select_files w s))"
    by (simp add: windows_filter [where P = is_Read, OF pacing_no_read] cat task_reads_once)
  then have 3: "filter is_Read ?evs = map Read (select_files w s)"
    by (simp add: concat_map_singleton)
  have f: "filter is_Fetch ?evs =
      concat (map (\<lambda>file. filter is_Fetch (snd (classifyAndMoveNote (task_env w file) s file)))
                (select_files w s))"
    by (simp add: windows_filter [where P = is_Fetch, OF pacing_no_fetch] cat)
  have 4: "filter is_Fetch ?evs =
             (if aiModel s = str ''gemini'' \<or> aiModel s = str ''claude'' \<or> aiModel s = str ''gpt''
              then concat (map (\<lambda>file.
                     case vault_read (task_env w file) of
                       Inl err \<Rightarrow> []
                     | Inr content \<Rightarrow>
                         if trim content = [] then []
                         else [Fetch \<lparr>endpoint = (if aiModel s = str ''gemini'' then Gemini
                                                   else if aiModel s = str ''claude'' then Claude else GPT),
                                      credential = getCurrentApiKey s,
                                      body = build_prompt s content\<rparr>])
                   (select_files w s))
              else [])"
  proof (cases "aiModel s = str ''gemini'' \<or> aiModel s = str ''claude'' \<or> aiModel s = str ''gpt''")
    case True
    have "filter is_Fetch (snd (classifyAndMoveNote (task_env w f) s f)) =
        (case vault_read (task_env w f) of
           Inl err \<Rightarrow> []
         | Inr content \<Rightarrow>
             if trim content = [] then []
             else [Fetch \<lparr>endpoint = (if aiModel s = str ''gemini'' then Gemini
                                       else if aiModel s = str ''claude'' then Claude else GPT),
                          credential = getCurrentApiKey s,
                          body = build_prompt s content\<rparr>])" for f
      unfolding task_fetches classifyNote_fetches using True
      by (auto split: sum.splits)
    then show ?thesis unfolding f using True by simp
  next
    case False
    have "filter is_Fetch (snd (classifyAndMoveNote (task_env w f) s f)) = []" for f
      unfolding task_fetches classifyNote_fetches using False
      by (auto split: sum.splits)
    then show ?thesis unfolding f using False by simp
  qed
  have 5: "getCurrentApiKey s \<noteq> [] \<longrightarrow>
               aiModel s = str ''gemini'' \<or> aiModel s = str ''claude'' \<or> aiModel s = str ''gpt''"
    using key_known_model by blast
  show ?thesis using 1 2 3 4 5 by blast
qed

theorem empty_labels_move_nothing_witness:
  "targetFolders (bare_settings\<lparr>targetFolders := []\<rparr>) = []
   \<and> 0 < maxWorkers (bare_settings\<lparr>targetFolders := []\<rparr>)
   \<and> select_files bare_world (bare_settings\<lparr>targetFolders := []\<rparr>) \<noteq> []
   \<and> (\<exists>evs. performSort bare_world (bare_settings\<lparr>targetFolders := []\<rparr>) =
           Some ([Notice (StartingSort 1 (str ''gemini''))] @ evs @ [Notice (SortingComplete 0 1)])
         \<and> filter is_relocation evs = []
         \<and> filter is_Read evs = [Read (root_note ''a.md'')]
         \<and> filter is_Fetch evs =
             [Fetch \<lparr>endpoint = Gemini, credential = str ''k'',
                     body = build_prompt (bare_settings\<lparr>targetFolders := []\<rparr>) (str ''alpha'')\<rparr>])"
proof -
  let ?s = "bare_settings\<lparr>targetFolders := []\<rparr>"
  have h1: "targetFolders ?s = []" by simp
  have h2: "0 < maxWorkers ?s" by (simp add: bare_settings_def demo_settings_def)
  have h3: "select_files bare_world ?s \<noteq> []" by (simp add: bare_select)
  have m: "aiModel ?s = str ''gemini''" by (simp add: bare_settings_def demo_settings_def)
  from empty_labels_move_nothing [OF h1 h2 h3] obtain evs where
    tr: "performSort bare_world ?s =
           Some ([Notice (StartingSort (length (select_files bare_world ?s)) (aiModel ?s))] @ evs
                 @ [Notice (SortingComplete 0 (length (select_files bare_world ?s)))])" and
    nr: "filter is_relocation evs = []" and
    rd: "filter is_Read evs = map Read (select_files bare_world ?s)" and
    ft: "filter is_Fetch evs =
             (if aiModel ?s = str ''gemini'' \<or> aiModel ?s = str ''claude'' \<or> aiModel ?s = str ''gpt''
              then concat (map (\<lambda>file.
                     case vault_read (task_env bare_world file) of
                       Inl err \<Rightarrow> []
                     | Inr content \<Rightarrow>
                         if trim content = [] then []
                         else [Fetch \<lparr>endpoint = (if aiModel ?s = str ''gemini'' then Gemini
                                                   else if aiModel ?s = str ''claude'' then Claude else GPT),
                                      credential = getCurrentApiKey ?s,
                                      body = build_prompt ?s content\<rparr>])
                   (select_files bare_world ?s))
              else [])"
    by blast
  have a: "performSort bare_world ?s =
           Some ([Notice (StartingSort 1 (str ''gemini''))] @ evs @ [Notice (SortingComplete 0 1)])"
    using tr unfolding bare_select m by simp
  have b: "filter is_Read evs = [Read (root_note ''a.md'')]"
    using rd unfolding bare_select by simp
  have c: "filter is_Fetch evs =
             [Fetch \<lparr>endpoint = Gemini, credential = str ''k'',
                     body = build_prompt ?s (str ''alpha'')\<rparr>]"
    using ft unfolding bare_select bare_fetches .
  show ?thesis using h1 h2 h3 a nr b c by blast
qed

text \<open>
  C2, as the source has it. The claim that a note whose task ends without a move is
  counted neither under \<open>moved\<close> nor under \<open>errors\<close> fails: the \<^verbatim>\<open>else\<close> branch of the
  \<^verbatim>\<open>forEach\<close> counts every result that is not a fulfilled true under \<open>errors\<close>. A run
  over the single note whose answer \<^verbatim>\<open>Unknown\<close> is not a target folder reads it, asks the
  provider, moves nothing and reports \<open>Moved: 0, Errors: 1\<close>.
\<close>

theorem skip_counted_as_error:
  "skipped (task_env demo_world (root_note ''b.md'')) demo_settings
   \<and> performSort (demo_world\<lparr>getMarkdownFiles := [root_note ''b.md'']\<rparr>) demo_settings
       = Some [Notice (StartingSort 1 (str ''gemini'')),
               Read (root_note ''b.md''),
               Fetch \<lparr>endpoint = Gemini, credential = str ''k'',
                      body = build_prompt demo_settings (str ''beta'')\<rparr>,
               Notice (SortingComplete 0 1)]"
  by code_simp

text \<open>
  C2, amended. For at least one worker and at least one selected note, \<open>moved\<close> is the
  number of notes whose task returned true and \<open>errors\<close> is the number of all the other
  notes; a note that is skipped (blank content, no label, or a label outside
  \<^verbatim>\<open>targetFolders\<close>) is never among the first, so it is counted under \<open>errors\<close> and not
  under \<open>moved\<close>.
\<close>

theorem skip_counts_under_errors:
  assumes "0 < maxWorkers s" "select_files w s \<noteq> []"
  shows "\<exists>evs. performSort w s =
           Some ([Notice (StartingSort (length (select_files w s)) (aiModel s))] @ evs
                 @ [Notice (SortingComplete
                      (length (filter (task_moves w s) (select_files w s)))
                      (length (filter (\<lambda>file. \<not> task_moves w s file) (select_files w s))))])
         \<and> (\<forall>file. skipped (task_env w file) s \<longrightarrow> \<not> task_moves w s file)"
proof -
  have "\<not> task_moves w s f" if "skipped (task_env w f) s" for f
    using skipped_not_moved [OF that, of f] by (simp add: task_moves_def)
  then show ?thesis using performSort_shape [OF assms] by blast
qed

theorem skip_counts_under_errors_witness:
  "0 < maxWorkers demo_settings
   \<and> select_files demo_world demo_settings \<noteq> []
   \<and> skipped (task_env demo_world (root_note ''b.md'')) demo_settings
   \<and> \<not> task_moves demo_world demo_settings (root_note ''b.md'')
   \<and> (\<exists>evs. performSort demo_world demo_settings =
           Some ([Notice (StartingSort 3 (str ''gemini''))] @ evs @ [Notice (SortingComplete 2 1)]))"
proof -
  have h1: "0 < maxWorkers demo_settings" by (simp add: demo_settings_def)
  have h2: "select_files demo_world demo_settings \<noteq> []" by (simp add: demo_select)
  have m: "aiModel demo_settings = str ''gemini''" by (simp add: demo_settings_def)
  from skip_counts_under_errors [OF h1 h2] obtain evs where
    tr: "performSort demo_world demo_settings =
           Some ([Notice (StartingSort (length (select_files demo_world demo_settings)) (aiModel demo_settings))] @ evs
                 @ [Notice (SortingComplete
                      (length (filter (task_moves demo_world demo_settings) (select_files demo_world demo_settings)))
                      (length (filter (\<lambda>file. \<not> task_moves demo_world demo_settings file) (select_files demo_world demo_settings))))])"
    and sk: "\<forall>file. skipped (task_env demo_world file) demo_settings \<longrightarrow> \<not> task_moves demo_world demo_settings file"
    by blast
  have "performSort demo_world demo_settings =
           Some ([Notice (StartingSort 3 (str ''gemini''))] @ evs @ [Notice (SortingComplete 2 1)])"
    using tr unfolding demo_select demo_moves demo_stays m by simp
  moreover have "\<not> task_moves demo_world demo_settings (root_note ''b.md'')"
    using sk demo_skip by blast
  ultimately show ?thesis using h1 h2 demo_skip by blast
qed

text \<open>
  C3. For every list of files and every \<^verbatim>\<open>batchSize\<close> k of at least 1, the batching loop
  of \<^verbatim>\<open>performSort\<close> ends and yields exactly ceil(n / k) batches, each of at most k files,
  whose concatenation is the list of files in its original order; the window of a batch
  issues at most k \<^verbatim>\<open>fetch\<close> calls.
\<close>

theorem batches_partition:
  assumes "0 < k"
  shows "\<exists>bs. batch_loop files k 0 [] = Some bs
           \<and> int (length bs) = \<lceil>real (length files) / real k\<rceil>
           \<and> (\<forall>b\<in>set bs. length (elems b) \<le> k)
           \<and> concat (map elems bs) = files
           \<and> (\<forall>b\<in>set bs. length (filter is_Fetch (snd (run_window w s b))) \<le> k)"
proof -
  from batch_loop_spec [OF assms, of files 0 "[]"] obtain bs where
    run: "batch_loop files k 0 [] = Some bs" and
    cat: "concat (map elems bs) = files" and
    len: "length bs = (length files + k - 1) div k" and
    sz: "\<forall>b\<in>set bs. length (elems b) \<le> k"
    by auto
  have c: "int (length bs) = \<lceil>real (length files) / real k\<rceil>"
    unfolding len using assms by (rule ceil_nat)
  have f: "\<forall>b\<in>set bs. length (filter is_Fetch (snd (run_window w s b))) \<le> k"
  proof
    fix b assume "b \<in> set bs"
    then have "length (elems b) \<le> k" using sz by simp
    then show "length (filter is_Fetch (snd (run_window w s b))) \<le> k"
      using window_fetch_le [of w s b] by simp
  qed
  show ?thesis using run c sz cat f by blast
qed

theorem batches_partition_witness:
  "(0::nat) < 2
   \<and> batch_loop [root_note ''a.md'', root_note ''b.md'', root_note ''c.md''] 2 0 []
       = Some [\<lparr>array_id = 0, elems = [root_note ''a.md'', root_note ''b.md'']\<rparr>,
               \<lparr>array_id = 1, elems = [root_note ''c.md'']\<rparr>]
   \<and> (2::int) = \<lceil>real (length [root_note ''a.md'', root_note ''b.md'', root_note ''c.md'']) / real (2::nat)\<rceil>"
proof -
  have h: "(0::nat) < 2" by simp
  have v: "batch_loop [root_note ''a.md'', root_note ''b.md'', root_note ''c.md''] 2 0 []
       = Some [\<lparr>array_id = 0, elems = [root_note ''a.md'', root_note ''b.md'']\<rparr>,
               \<lparr>array_id = 1, elems = [root_note ''c.md'']\<rparr>]"
    by code_simp
  from batches_partition [OF h, of "[root_note ''a.md'', root_note ''b.md'', root_note ''c.md'']" demo_world demo_settings]
  obtain bs where
    "batch_loop [root_note ''a.md'', root_note ''b.md'', root_note ''c.md''] 2 0 [] = Some bs"
    "int (length bs) = \<lceil>real (length [root_note ''a.md'', root_note ''b.md'', root_note ''c.md'']) / real (2::nat)\<rceil>"
    by blast
  with v have "(2::int) = \<lceil>real (length [root_note ''a.md'', root_note ''b.md'', root_note ''c.md'']) / real (2::nat)\<rceil>"
    by simp
  with h v show ?thesis by blast
qed

text \<open>
  C4. When \<^verbatim>\<open>vault.read\<close> gives a content that is empty after \<^verbatim>\<open>trim\<close>, the task of
  the note returns false and its only effect is the read: no \<^verbatim>\<open>fetch\<close>, no folder creation,
  no rename.
\<close>

theorem blank_content_skipped:
  assumes "vault_read e = Inr content" "trim content = []"
  shows "classifyAndMoveNote e s file = (Inr False, [Read file])"
  using assms by (simp add: classifyAndMoveNote_def classifyAndMoveNote_try_def)

theorem blank_content_skipped_witness:
  "vault_read (replying [0x20, 0x0A, 0x09] (str ''Work'')) = Inr [0x20, 0x0A, 0x09]
   \<and> trim [0x20, 0x0A, 0x09] = []
   \<and> classifyAndMoveNote (replying [0x20, 0x0A, 0x09] (str ''Work'')) demo_settings (root_note ''a.md'')
       = (Inr False, [Read (root_note ''a.md'')])"
proof -
  have h1: "vault_read (replying [0x20, 0x0A, 0x09] (str ''Work'')) = Inr [0x20, 0x0A, 0x09]"
    by (simp add: replying_def)
  have h2: "trim [0x20, 0x0A, 0x09] = []"
    by (simp add: trim_def is_ws_def)
  show ?thesis using h1 h2 blank_content_skipped [OF h1 h2] by simp
qed

text \<open>
  C5. When the provider answers with a text whose trimmed value is not an element of
  \<^verbatim>\<open>targetFolders\<close> (the test is \<^verbatim>\<open>includes\<close>, equality of strings, so a case variant
  of a folder name is not an element), the task returns false and its trace holds no
  folder creation and no rename; when the read succeeded, this is one of the returns of
  false without a throw. The source has no validator of its own: the label is rejected
  by the guard in front of the move.
\<close>

theorem unknown_label_skipped:
  assumes "fetch e = (\<lambda>req. Inr resp)" "ok resp" "json resp = Inr (Text raw)"
    and "trim raw \<notin> set (targetFolders s)"
  shows "fst (classifyAndMoveNote e s file) = Inr False
         \<and> filter is_relocation (snd (classifyAndMoveNote e s file)) = []
         \<and> (\<forall>content. vault_read e = Inr content \<longrightarrow> skipped e s)"
proof -
  have sk: "skipped e s" if "vault_read e = Inr content" for content
    using that assms(4) classifyNote_label [OF assms(1-3), of s]
    by (auto simp: skipped_def split: option.splits)
  show ?thesis
  proof (cases "vault_read e")
    case (Inl err)
    then show ?thesis by (simp add: read_error_task)
  next
    case (Inr content)
    then have "skipped e s" by (rule sk)
    then show ?thesis
      using skipped_not_moved [of e s "file"] skipped_try(2) [of e s "file"]
      by (simp add: task_events)
  qed
qed

theorem unknown_label_skipped_witness:
  "fetch (replying (str ''alpha'') (str ''work''))
     = (\<lambda>req. Inr \<lparr>ok = True, status = 200, json = Inr (Text (str ''work''))\<rparr>)
   \<and> trim (str ''work'') \<notin> set (targetFolders demo_settings)
   \<and> str ''Work'' \<in> set (targetFolders demo_settings)
   \<and> fst (classifyAndMoveNote (replying (str ''alpha'') (str ''work'')) demo_settings (root_note ''a.md''))
       = Inr False
   \<and> filter is_relocation
        (snd (classifyAndMoveNote (replying (str ''alpha'') (str ''work'')) demo_settings (root_note ''a.md'')))
       = []"
proof -
  have h1: "fetch (replying (str ''alpha'') (str ''work''))
     = (\<lambda>req. Inr \<lparr>ok = True, status = 200, json = Inr (Text (str ''work''))\<rparr>)"
    by (simp add: replying_def)
  have h2: "ok \<lparr>ok = True, status = 200, json = Inr (Text (str ''work''))\<rparr>"
    by simp
  have h3: "json \<lparr>ok = True, status = 200, json = Inr (Text (str ''work''))\<rparr> = Inr (Text (str ''work''))"
    by simp
  have h4: "trim (str ''work'') \<notin> set (targetFolders demo_settings)"
    by (simp add: trim_def str_def is_ws_def demo_settings_def)
  have h5: "str ''Work'' \<in> set (targetFolders demo_settings)"
    by (simp add: demo_settings_def)
  show ?thesis
    using h1 h4 h5 unknown_label_skipped [OF h1 h2 h3 h4, of "root_note ''a.md''"] by simp
qed

text \<open>
  C6. When the API key of the selected model is empty, \<^verbatim>\<open>sortNotes\<close> shows the notice
  asking for the key and returns: the modal is not opened, \<^verbatim>\<open>performSort\<close> is not
  reached, and the trace of the run is that single notice, with no read and no
  \<^verbatim>\<open>fetch\<close>. The check is made there and nowhere else: no trace of \<^verbatim>\<open>performSort\<close>
  holds such a notice, whatever the settings and the number of notes.
\<close>

theorem missing_key_aborts:
  assumes "getCurrentApiKey s = []"
  shows "run w s confirm = Some [Notice (PleaseSetApiKey (aiModel s))]
         \<and> (\<forall>s' tr. performSort w s' = Some tr \<longrightarrow> filter is_credential_notice tr = [])"
  using assms by (simp add: run_def sortNotes_def performSort_no_credential_notice)

theorem missing_key_aborts_witness:
  "getCurrentApiKey (demo_settings\<lparr>geminiApiKey := []\<rparr>) = []
   \<and> run demo_world (demo_settings\<lparr>geminiApiKey := []\<rparr>) True
       = Some [Notice (PleaseSetApiKey (str ''gemini''))]"
proof -
  have h: "getCurrentApiKey (demo_settings\<lparr>geminiApiKey := []\<rparr>) = []"
    by (simp add: getCurrentApiKey_def demo_settings_def)
  have m: "aiModel (demo_settings\<lparr>geminiApiKey := []\<rparr>) = str ''gemini''"
    by (simp add: demo_settings_def)
  show ?thesis using h m missing_key_aborts [OF h, of demo_world True] by simp
qed

text \<open>
  C7. The task of a note always settles fulfilled, with true or false, whatever the
  outside answers: every throw of its body is caught by its \<^verbatim>\<open>catch\<close>. For at least one
  worker and n selected notes (n at least 1), the run ends with the summary notice, whose
  \<open>moved\<close> is the number of tasks that returned true and whose \<open>errors\<close> is the number
  of the others, so the two sum to n. (With no selected note the run shows the "no notes
  found" notice and no summary; with no worker and a selected note the batching loop does
  not end, which is \<open>performSort_zero_workers\<close>.)
\<close>

theorem every_task_counted:
  assumes "0 < maxWorkers s" "select_files w s \<noteq> []"
  shows "(\<forall>e file. fst (classifyAndMoveNote e s file) = Inr True
                  \<or> fst (classifyAndMoveNote e s file) = Inr False)
         \<and> (\<exists>evs m e. performSort w s =
                 Some ([Notice (StartingSort (length (select_files w s)) (aiModel s))] @ evs
                       @ [Notice (SortingComplete m e)])
               \<and> m = length (filter (task_moves w s) (select_files w s))
               \<and> e = length (filter (\<lambda>file. \<not> task_moves w s file) (select_files w s))
               \<and> m + e = length (select_files w s))"
proof -
  from performSort_shape [OF assms] obtain bs where
    "performSort w s =
       Some ([Notice (StartingSort (length (select_files w s)) (aiModel s))]
             @ concat (map (\<lambda>b. snd (run_window w s b) @ pacing bs b) bs)
             @ [Notice (SortingComplete
                  (length (filter (task_moves w s) (select_files w s)))
                  (length (filter (\<lambda>file. \<not> task_moves w s file) (select_files w s))))])"
    by blast
  moreover have "length (filter (task_moves w s) (select_files w s))
      + length (filter (\<lambda>file. \<not> task_moves w s file) (select_files w s))
      = length (select_files w s)"
    by (rule sum_length_filter_compl)
  ultimately show ?thesis using classifyAndMoveNote_fulfilled by blast
qed

theorem every_task_counted_witness:
  "0 < maxWorkers demo_settings
   \<and> select_files demo_world demo_settings \<noteq> []
   \<and> (\<exists>evs m e. performSort demo_world demo_settings =
          Some ([Notice (StartingSort (length (select_files demo_world demo_settings)) (aiModel demo_settings))]
                @ evs @ [Notice (SortingComplete m e)])
        \<and> m + e = length (select_files demo_world demo_settings))
   \<and> length (select_files demo_world demo_settings) = 3"
proof -
  have h1: "0 < maxWorkers demo_settings" by (simp add: demo_settings_def)
  have h2: "select_files demo_world demo_settings \<noteq> []" by (simp add: demo_select)
  have h3: "length (select_files demo_world demo_settings) = 3" by (simp add: demo_select)
  show ?thesis using h1 h2 h3 every_task_counted [OF h1 h2] by blast
qed

text \<open>
  C8. The counting of the settled results into \<open>(totalMoved, totalErrors)\<close> does not depend
  on their order: two sequences of results with the same elements, in any order, give the
  same totals from the same starting counters.
\<close>

theorem tally_permutation:
  assumes "mset rs = mset rs'"
  shows "tally rs totals = tally rs' totals"
proof -
  have "length (filter P rs) = length (filter P rs')" for P
  proof -
    have "mset (filter P rs) = mset (filter P rs')"
      using assms by (simp only: mset_filter)
    then show ?thesis by (rule mset_eq_length)
  qed
  then show ?thesis by (cases totals) (simp add: tally_count)
qed

theorem tally_permutation_witness:
  "mset [Fulfilled True, Fulfilled False, Rejected FetchError]
     = mset [Rejected FetchError, Fulfilled True, Fulfilled False]
   \<and> tally [Fulfilled True, Fulfilled False, Rejected FetchError] (0, 0)
     = tally [Rejected FetchError, Fulfilled True, Fulfilled False] (0, 0)
   \<and> tally [Rejected FetchError, Fulfilled True, Fulfilled False] (0, 0) = (1, 2)"
proof -
  have h: "mset [Fulfilled True, Fulfilled False, Rejected FetchError]
     = mset [Rejected FetchError, Fulfilled True, Fulfilled False]"
    by simp
  have v: "tally [Rejected FetchError, Fulfilled True, Fulfilled False] (0, 0) = (1, 2)"
    by simp
  show ?thesis using h v tally_permutation [OF h, of "(0, 0)"] by simp
qed

text \<open>
  C9. For at least one worker and at least one selected note, the trace of the run is the
  start notice, then window after window the events of the window followed by one
  \<open>Delay 1000\<close> when the window is not the last and by nothing when it is the last, then
  the summary notice; the events of a window hold no delay. A run of a single window
  therefore has no delay.
\<close>

theorem pacing_between_windows:
  assumes "0 < maxWorkers s" "select_files w s \<noteq> []"
  shows "\<exists>bs m e. batch_loop (select_files w s) (maxWorkers s) 0 [] = Some bs
           \<and> performSort w s =
               Some ([Notice (StartingSort (length (select_files w s)) (aiModel s))]
                     @ concat (map (\<lambda>j. snd (run_window w s (bs ! j))
                                          @ (if Suc j < length bs then [Delay 1000] else []))
                                [0..<length bs])
                     @ [Notice (SortingComplete m e)])
           \<and> (\<forall>b. filter is_Delay (snd (run_window w s b)) = [])"
proof -
  from performSort_shape [OF assms] obtain bs where
    run: "batch_loop (select_files w s) (maxWorkers s) 0 [] = Some bs" and
    d: "distinct (map array_id bs)" and
    tr: "performSort w s =
       Some ([Notice (StartingSort (length (select_files w s)) (aiModel s))]
             @ concat (map (\<lambda>b. snd (run_window w s b) @ pacing bs b) bs)
             @ [Notice (SortingComplete
                  (length (filter (task_moves w s) (select_files w s)))
                  (length (filter (\<lambda>file. \<not> task_moves w s file) (select_files w s))))])"
    by blast
  show ?thesis
    using run tr window_no_delay unfolding windows_by_index [OF d] by blast
qed

theorem pacing_between_windows_witness:
  "0 < maxWorkers demo_settings
   \<and> select_files demo_world demo_settings \<noteq> []
   \<and> (\<exists>bs m e. batch_loop (select_files demo_world demo_settings) (maxWorkers demo_settings) 0 [] = Some bs
           \<and> performSort demo_world demo_settings =
               Some ([Notice (StartingSort (length (select_files demo_world demo_settings)) (aiModel demo_settings))]
                     @ concat (map (\<lambda>j. snd (run_window demo_world demo_settings (bs ! j))
                                          @ (if Suc j < length bs then [Delay 1000] else []))
                                [0..<length bs])
                     @ [Notice (SortingComplete m e)]))
   \<and> map_option (filter is_Delay) (performSort demo_world demo_settings) = Some [Delay 1000]"
proof -
  have h1: "0 < maxWorkers demo_settings" by (simp add: demo_settings_def)
  have h2: "select_files demo_world demo_settings \<noteq> []" by (simp add: demo_select)
  show ?thesis using h1 h2 demo_delays pacing_between_windows [OF h1 h2] by blast
qed

text \<open>
  C10. When the text extracted from the response of the provider is empty or blank,
  \<^verbatim>\<open>classifyNote\<close> returns null, the task returns false without a folder creation or a
  rename, and the task behaves exactly as it does when the field is absent from the
  response.
\<close>

theorem blank_answer_is_no_label:
  assumes "fetch e = (\<lambda>req. Inr resp)" "ok resp" "json resp = Inr (Text t)" "trim t = []"
  shows "fst (classifyNote e s content) = None
         \<and> fst (classifyAndMoveNote e s file) = Inr False
         \<and> filter is_relocation (snd (classifyAndMoveNote e s file)) = []
         \<and> classifyAndMoveNote e s file
             = classifyAndMoveNote (e\<lparr>fetch := \<lambda>req. Inr (resp\<lparr>json := Inr Absent\<rparr>)\<rparr>) s file"
proof -
  let ?e' = "e\<lparr>fetch := \<lambda>req. Inr (resp\<lparr>json := Inr Absent\<rparr>)\<rparr>"
  have none: "fst (classifyNote e s c) = None" for c
    using assms by (rule classifyNote_blank)
  have none': "fst (classifyNote ?e' s c) = None" for c
    by (rule classifyNote_absent [where resp = "resp\<lparr>json := Inr Absent\<rparr>"]) (simp_all add: assms(2))
  have evs: "snd (classifyNote ?e' s c) = snd (classifyNote e s c)" for c
    by (simp add: classifyNote_events)
  have cn: "classifyNote ?e' s c = classifyNote e s c" for c
    using none [of c] none' [of c] evs [of c] by (simp add: prod_eq_iff)
  have same: "classifyAndMoveNote_try ?e' s file = classifyAndMoveNote_try e s file"
    using none by (simp add: classifyAndMoveNote_try_def cn case_prod_beta split: sum.splits)
  have eq: "classifyAndMoveNote e s file = classifyAndMoveNote ?e' s file"
    by (simp add: classifyAndMoveNote_def same)
  show ?thesis
    using none [of content] no_label_task [of e s "file", OF none] eq by simp
qed

theorem blank_answer_is_no_label_witness:
  "trim (str ''  '') = []
   \<and> fst (classifyNote (replying (str ''alpha'') (str ''  '')) demo_settings (str ''alpha'')) = None
   \<and> fst (classifyAndMoveNote (replying (str ''alpha'') (str ''  '')) demo_settings (root_note ''a.md''))
       = Inr False"
proof -
  have h1: "fetch (replying (str ''alpha'') (str ''  ''))
     = (\<lambda>req. Inr \<lparr>ok = True, status = 200, json = Inr (Text (str ''  ''))\<rparr>)"
    by (simp add: replying_def)
  have h2: "ok \<lparr>ok = True, status = 200, json = Inr (Text (str ''  ''))\<rparr>"
    by simp
  have h3: "json \<lparr>ok = True, status = 200, json = Inr (Text (str ''  ''))\<rparr> = Inr (Text (str ''  ''))"
    by simp
  have h4: "trim (str ''  '') = []"
    by (simp add: trim_def str_def is_ws_def)
  show ?thesis
    using h4 blank_answer_is_no_label [OF h1 h2 h3 h4, of demo_settings "str ''alpha''" "root_note ''a.md''"]
    by blast
qed

end
